theory Spec2Isabelle
  imports Complex_Main
begin

section \<open>Label scattering of the autocontext workflow\<close>

text \<open>
  The development embeds \<^verbatim>\<open>src/core/labels.py\<close> (the functions
  \<^verbatim>\<open>scatter_labels_single_block\<close> and \<^verbatim>\<open>scatter_labels\<close>) and the part of
  \<^verbatim>\<open>autocontext\<close> in \<^verbatim>\<open>src/autocontext.py\<close> that validates the weights and calls
  the scatter.

  Modelling decisions.
  \<^item> A numpy array is a record of its shape, its dtype and its voxels in row-major
    order. A voxel position is its flat index: the coordinate tuple that
    \<^verbatim>\<open>numpy.where\<close> returns and the flat index determine each other for a fixed shape,
    and \<^verbatim>\<open>numpy.where\<close> lists the coordinates in row-major order, that is by
    ascending flat index.
  \<^item> Python integers are \<open>int\<close>; \<^verbatim>\<open>range(n)\<close> is empty for \<open>n \<le> 0\<close>.
  \<^item> The module-wide generator of \<^verbatim>\<open>random\<close> is an explicit state \<open>'g\<close> that is
    passed through every call. \<^verbatim>\<open>random.sample\<close> is library code; it is a parameter
    \<open>smp\<close> of the model, and the theorems assume only its documented contract
    (\<open>sampler_ok\<close>).
  \<^item> Every exception is a value of type \<open>error\<close>; a function that can raise returns
    \<open>error + 'a\<close>.
\<close>

subsection \<open>Errors and loops\<close>

datatype error =
    ZeroDivisionError
  | ValueError
  | IndexError
  | TypeError
  | Exception string

text \<open>A \<^verbatim>\<open>for x in xs\<close> loop over a state; the first exception ends it.\<close>

fun for_loop :: "('a \<Rightarrow> 's \<Rightarrow> error + 's) \<Rightarrow> 'a list \<Rightarrow> 's \<Rightarrow> error + 's" where
  "for_loop body [] s = Inr s"
| "for_loop body (x # xs) s =
     (case body x s of Inl e \<Rightarrow> Inl e | Inr s' \<Rightarrow> for_loop body xs s')"

text \<open>\<^verbatim>\<open>range(n)\<close> of a Python integer.\<close>

definition py_range :: "int \<Rightarrow> nat list" where
  "py_range n = [0..<nat n]"

subsection \<open>Arrays\<close>

record 'd label_block =
  shape :: "nat list"
  dtype :: 'd
  voxels :: "int list"

text \<open>Every numpy array has as many elements as its shape says. A label block has at
  least one axis (the blocks of a project have five).\<close>

definition wf_block :: "'d label_block \<Rightarrow> bool" where
  "wf_block b \<longleftrightarrow> shape b \<noteq> [] \<and> length (voxels b) = prod_list (shape b)"

text \<open>\<^verbatim>\<open>numpy.zeros(shape, dtype=dtype)\<close>.\<close>

definition numpy_zeros :: "nat list \<Rightarrow> 'd \<Rightarrow> 'd label_block" where
  "numpy_zeros sh dt = \<lparr>shape = sh, dtype = dt, voxels = replicate (prod_list sh) 0\<rparr>"

text \<open>\<^verbatim>\<open>numpy.where(label_block == v)\<close>: the positions holding \<open>v\<close>, ascending.\<close>

definition numpy_where :: "int list \<Rightarrow> int \<Rightarrow> nat list" where
  "numpy_where xs v = filter (\<lambda>p. xs ! p = v) [0..<length xs]"

text \<open>\<^verbatim>\<open>w[chosen_indices]\<close>: indexing an array with a list of indices; numpy raises
  IndexError for an index out of bounds.\<close>

definition take_indices :: "nat list \<Rightarrow> nat list \<Rightarrow> error + nat list" where
  "take_indices w js =
     (if \<forall>j\<in>set js. j < length w then Inr (map (\<lambda>j. w ! j) js) else Inl IndexError)"

text \<open>\<^verbatim>\<open>block[wh] = v\<close>: assignment at a list of positions. The scatter assigns
  \<open>i + 1\<close> only at positions where the input block, of the same dtype, holds \<open>i + 1\<close>,
  so the value is stored as it is.\<close>

definition put_indices :: "'d label_block \<Rightarrow> nat list \<Rightarrow> int \<Rightarrow> error + 'd label_block" where
  "put_indices block ps v =
     (if \<forall>p\<in>set ps. p < length (voxels block)
      then Inr (block\<lparr>voxels := fold (\<lambda>p ys. ys[p := v]) ps (voxels block)\<rparr>)
      else Inl IndexError)"

subsection \<open>The random sampler\<close>

type_synonym 'g sampler = "'g \<Rightarrow> nat list \<Rightarrow> nat \<Rightarrow> nat list \<times> 'g"

text \<open>\<^verbatim>\<open>random.sample(population, k)\<close> raises ValueError unless
  \<open>0 \<le> k \<le> len(population)\<close>; otherwise it draws from the generator.\<close>

definition random_sample ::
  "'g sampler \<Rightarrow> 'g \<Rightarrow> nat list \<Rightarrow> int \<Rightarrow> error + (nat list \<times> 'g)" where
  "random_sample smp g population k =
     (if 0 \<le> k \<and> k \<le> int (length population)
      then Inr (smp g population (nat k)) else Inl ValueError)"

text \<open>The contract of \<^verbatim>\<open>random.sample\<close> that the scatter relies on: from a population
  without repetitions it returns \<open>k\<close> different members of the population.\<close>

definition sampler_ok :: "'g sampler \<Rightarrow> bool" where
  "sampler_ok smp \<longleftrightarrow>
     (\<forall>g pop k. distinct pop \<and> k \<le> length pop \<longrightarrow>
        distinct (fst (smp g pop k)) \<and> set (fst (smp g pop k)) \<subseteq> set pop
        \<and> length (fst (smp g pop k)) = k)"

text \<open>A concrete sampler, used to run the model: a linear congruential generator
  picks a position of the remaining pool, \<open>k\<close> times.\<close>

definition lcg_next :: "nat \<Rightarrow> nat" where
  "lcg_next g = (5 * g + 3) mod 16"

fun lcg_sample :: "nat sampler" where
  "lcg_sample g pop 0 = ([], g)"
| "lcg_sample g pop (Suc k) =
     (if pop = [] then ([], g)
      else let j = g mod length pop;
               r = lcg_sample (lcg_next g) (take j pop @ drop (Suc j) pop) k
           in (pop ! j # fst r, snd r))"

subsection \<open>The single-block partitioner\<close>

text \<open>\<^verbatim>\<open>int(math.ceil(float(len(available_indices))/(n-k)))\<close>. The quotient of the
  two integers is taken exactly (lemma \<open>num_samples_ceiling\<close> relates the integer
  formula to the ceiling of the real quotient); the double-precision quotient of the
  source has the same ceiling for every pool of fewer than \<open>2^53\<close> indices.\<close>

definition num_samples :: "nat \<Rightarrow> int \<Rightarrow> nat \<Rightarrow> error + int" where
  "num_samples len n k =
     (if n - int k = 0 then Inl ZeroDivisionError
      else Inr (- ((- int len) div (n - int k))))"

text \<open>The body of the inner loop, for class \<open>i + 1\<close> in round \<open>k\<close>. The state is
  \<open>(available_list, block, g)\<close>.\<close>

definition scatter_class ::
  "'g sampler \<Rightarrow> nat list list \<Rightarrow> int \<Rightarrow> nat \<Rightarrow> nat
     \<Rightarrow> nat list list \<times> 'd label_block \<times> 'g
     \<Rightarrow> error + (nat list list \<times> 'd label_block \<times> 'g)" where
  "scatter_class smp wh_list n k i st =
     (case st of (available_list, block, g) \<Rightarrow>
        if length available_list \<le> i then Inl IndexError
        else
          let available_indices = available_list ! i in
          (case num_samples (length available_indices) n k of
            Inl e \<Rightarrow> Inl e
          | Inr m \<Rightarrow>
              (case random_sample smp g available_indices m of
                 Inl e \<Rightarrow> Inl e
               | Inr (chosen_indices, g') \<Rightarrow>
                   let available_list' =
                         available_list[i := filter (\<lambda>x. x \<notin> set chosen_indices) available_indices]
                   in (if length wh_list \<le> i then Inl IndexError
                      else
                        (case take_indices (wh_list ! i) chosen_indices of
                           Inl e \<Rightarrow> Inl e
                         | Inr wh \<Rightarrow>
                             (case put_indices block wh (int i + 1) of
                                Inl e \<Rightarrow> Inl e
                              | Inr block' \<Rightarrow> Inr (available_list', block', g')))))))"

text \<open>The body of the outer loop, round \<open>k\<close>. The state is
  \<open>(available_list, g, scatter_blocks)\<close>.\<close>

definition scatter_round ::
  "'g sampler \<Rightarrow> nat list list \<Rightarrow> 'd label_block \<Rightarrow> int \<Rightarrow> int \<Rightarrow> nat
     \<Rightarrow> nat list list \<times> 'g \<times> 'd label_block list
     \<Rightarrow> error + (nat list list \<times> 'g \<times> 'd label_block list)" where
  "scatter_round smp wh_list label_block label_count n k st =
     (case st of (available_list, g, scatter_blocks) \<Rightarrow>
        let block = numpy_zeros (shape label_block) (dtype label_block) in
        (case for_loop (scatter_class smp wh_list n k) (py_range label_count)
                (available_list, block, g) of
           Inl e \<Rightarrow> Inl e
         | Inr (available_list', block', g') \<Rightarrow>
             Inr (available_list', g', scatter_blocks @ [block'])))"

definition wh_list_of :: "'d label_block \<Rightarrow> int \<Rightarrow> nat list list" where
  "wh_list_of label_block label_count =
     map (\<lambda>i. numpy_where (voxels label_block) (int i + 1)) (py_range label_count)"

definition available_list_of :: "nat list list \<Rightarrow> nat list list" where
  "available_list_of wh_list = map (\<lambda>wh. [0..<length wh]) wh_list"

text \<open>The state of the outer loop after the rounds \<open>ks\<close>.\<close>

definition scatter_rounds ::
  "'g sampler \<Rightarrow> 'g \<Rightarrow> 'd label_block \<Rightarrow> int \<Rightarrow> int \<Rightarrow> nat list
     \<Rightarrow> error + (nat list list \<times> 'g \<times> 'd label_block list)" where
  "scatter_rounds smp g label_block label_count n ks =
     (let wh_list = wh_list_of label_block label_count;
          available_list = available_list_of wh_list
      in for_loop (scatter_round smp wh_list label_block label_count n) ks
           (available_list, g, []))"

definition scatter_labels_single_block ::
  "'g sampler \<Rightarrow> 'g \<Rightarrow> 'd label_block \<Rightarrow> int \<Rightarrow> int \<Rightarrow> error + ('d label_block list \<times> 'g)" where
  "scatter_labels_single_block smp g label_block label_count n =
     (case scatter_rounds smp g label_block label_count n (py_range n) of
        Inl e \<Rightarrow> Inl e
      | Inr (available_list, g', scatter_blocks) \<Rightarrow> Inr (scatter_blocks, g'))"

subsection \<open>The multi-block aggregator\<close>

text \<open>The body of the loop over \<^verbatim>\<open>enumerate(scatter_blocks)\<close>:
  \<^verbatim>\<open>return_list[i].append(b)\<close>.\<close>

definition append_round ::
  "nat \<times> 'd label_block \<Rightarrow> 'd label_block list list \<Rightarrow> error + 'd label_block list list" where
  "append_round ib return_list =
     (case ib of (i, b) \<Rightarrow>
        if length return_list \<le> i then Inl IndexError
        else Inr (return_list[i := return_list ! i @ [b]]))"

text \<open>The body of the loop over \<^verbatim>\<open>label_blocks\<close>. The state is \<open>(return_list, g)\<close>.\<close>

definition scatter_labels_body ::
  "'g sampler \<Rightarrow> int \<Rightarrow> int \<Rightarrow> 'd label_block
     \<Rightarrow> 'd label_block list list \<times> 'g \<Rightarrow> error + ('d label_block list list \<times> 'g)" where
  "scatter_labels_body smp label_count n block st =
     (case st of (return_list, g) \<Rightarrow>
        (case scatter_labels_single_block smp g block label_count n of
           Inl e \<Rightarrow> Inl e
         | Inr (scatter_blocks, g') \<Rightarrow>
             (case for_loop append_round (enumerate 0 scatter_blocks) return_list of
                Inl e \<Rightarrow> Inl e
              | Inr return_list' \<Rightarrow> Inr (return_list', g'))))"

definition scatter_labels ::
  "'g sampler \<Rightarrow> 'g \<Rightarrow> 'd label_block list \<Rightarrow> int \<Rightarrow> int
     \<Rightarrow> error + ('d label_block list list \<times> 'g)" where
  "scatter_labels smp g label_blocks label_count n =
     (let return_list = map (\<lambda>_. []) (py_range n)
      in for_loop (scatter_labels_body smp label_count n) label_blocks (return_list, g))"

subsection \<open>The training loop\<close>

text \<open>The project object. Its class is not part of the sources at hand (the
  \<^verbatim>\<open>ILP\<close> class of \<^verbatim>\<open>src/core/ilp.py\<close> has none of the methods that
  \<^verbatim>\<open>autocontext\<close> calls), so what \<^verbatim>\<open>autocontext\<close> reads from it is a record of
  parameters, and every method that acts on the project file is an event of a trace.\<close>

record ('d, 'sl) project =
  data_count :: int
  get_channel_count :: "int \<Rightarrow> int"
  label_names :: "string list"
  labelsets_count :: int
  get_labels :: "int \<Rightarrow> 'd label_block list \<times> 'sl"

datatype ('d, 'sl) event =
    ExtendData
  | ReplaceLabels int "'d label_block list" 'sl
  | Retrain
  | SaveProject nat
  | PredictAll
  | MergeOutput nat int

text \<open>The values that \<^verbatim>\<open>autocontext\<close> passes to \<^verbatim>\<open>scatter_labels\<close>.\<close>

datatype 'd pyval =
    PBlocks "'d label_block list"
  | PInt int
  | PWeights "int list"

text \<open>A call of \<^verbatim>\<open>scatter_labels\<close> with positional arguments. The function is
  defined with the three parameters \<^verbatim>\<open>label_blocks, label_count, n\<close>; Python raises
  TypeError for any other number of arguments.\<close>

definition call_scatter_labels ::
  "'g sampler \<Rightarrow> 'g \<Rightarrow> 'd pyval list \<Rightarrow> error + ('d label_block list list \<times> 'g)" where
  "call_scatter_labels smp g args =
     (case args of
        [PBlocks label_blocks, PInt label_count, PInt n] \<Rightarrow>
          scatter_labels smp g label_blocks label_count n
      | _ \<Rightarrow> Inl TypeError)"

text \<open>\<^verbatim>\<open>weights[:runs]\<close>; a negative bound counts from the end.\<close>

definition slice_to :: "'a list \<Rightarrow> int \<Rightarrow> 'a list" where
  "slice_to xs r = (if 0 \<le> r then take (nat r) xs else take (length xs - nat (- r)) xs)"

text \<open>Lines 45 to 49 of \<^verbatim>\<open>autocontext\<close>. Only the number of weights is ever used.\<close>

definition check_weights :: "int list option \<Rightarrow> int \<Rightarrow> error + int list" where
  "check_weights weights runs =
     (let weights = (case weights of None \<Rightarrow> replicate (nat runs) 1 | Some ws \<Rightarrow> ws)
      in if int (length weights) < runs
         then Inl (Exception ''The number of weights must not be smaller than the number of runs.'')
         else Inr (slice_to weights runs))"

definition blocks_with_slicing_of ::
  "('d, 'sl) project \<Rightarrow> int \<Rightarrow> (int \<times> 'd label_block list \<times> 'sl) list" where
  "blocks_with_slicing_of project label_data_nr =
     (if label_data_nr = - 1
      then map (\<lambda>i. (int i, get_labels project (int i))) (py_range (labelsets_count project))
      else [(label_data_nr, get_labels project label_data_nr)])"

text \<open>The list comprehension of lines 67 and 68: one call of \<^verbatim>\<open>scatter_labels\<close>, with
  four arguments, for every entry of \<^verbatim>\<open>blocks_with_slicing\<close>.\<close>

definition scattered_labels_list_of ::
  "'g sampler \<Rightarrow> 'g \<Rightarrow> int \<Rightarrow> int \<Rightarrow> int list \<Rightarrow> (int \<times> 'd label_block list \<times> 'sl) list
     \<Rightarrow> error + ('d label_block list list list \<times> 'g)" where
  "scattered_labels_list_of smp g label_count runs weights blocks_with_slicing =
     for_loop
       (\<lambda>entry st. case entry of (i, blocks, block_slices) \<Rightarrow> case st of (acc, g) \<Rightarrow>
          (case call_scatter_labels smp g
                  [PBlocks blocks, PInt label_count, PInt runs, PWeights weights] of
             Inl e \<Rightarrow> Inl e
           | Inr (scattered, g') \<Rightarrow> Inr (acc @ [scattered], g')))
       blocks_with_slicing ([], g)"

text \<open>The events of training round \<open>i\<close> (lines 71 to 96). The index
  \<^verbatim>\<open>scattered_labels[i]\<close> is only evaluated for an entry whose scatter call has
  returned.\<close>

definition training_round ::
  "('d, 'sl) project \<Rightarrow> (int \<times> 'd label_block list \<times> 'sl) list
     \<Rightarrow> 'd label_block list list list \<Rightarrow> int list \<Rightarrow> nat \<Rightarrow> ('d, 'sl) event list" where
  "training_round project blocks_with_slicing scattered_labels_list keep_channels i =
     map (\<lambda>(entry, scattered_labels). case entry of (k, blocks, block_slices) \<Rightarrow>
            ReplaceLabels k (scattered_labels ! i) block_slices)
         (zip blocks_with_slicing scattered_labels_list)
     @ [Retrain, SaveProject i, PredictAll]
     @ map (\<lambda>k. MergeOutput k (keep_channels ! k)) (py_range (data_count project))"

text \<open>\<^verbatim>\<open>autocontext\<close>: the trace of project events and the exception, if one was
  raised.\<close>

definition autocontext ::
  "'g sampler \<Rightarrow> 'g \<Rightarrow> ('d, 'sl) project \<Rightarrow> int \<Rightarrow> int \<Rightarrow> int list option
     \<Rightarrow> ('d, 'sl) event list \<times> error option" where
  "autocontext smp g project runs label_data_nr weights =
     (case check_weights weights runs of
        Inl e \<Rightarrow> ([], Some e)
      | Inr weights' \<Rightarrow>
          let keep_channels =
                map (\<lambda>i. get_channel_count project (int i)) (py_range (data_count project));
              label_count = int (length (label_names project));
              blocks_with_slicing = blocks_with_slicing_of project label_data_nr
          in (case scattered_labels_list_of smp g label_count runs weights' blocks_with_slicing of
                Inl e \<Rightarrow> ([ExtendData], Some e)
              | Inr (scattered_labels_list, g') \<Rightarrow>
                  ([ExtendData]
                   @ concat (map (training_round project blocks_with_slicing
                                   scattered_labels_list keep_channels) (py_range runs))
                   @ map (\<lambda>(k, blocks, block_slices). ReplaceLabels k blocks block_slices)
                       blocks_with_slicing,
                   None)))"

subsection \<open>Notions used in the statements\<close>

text \<open>The positions of a block that hold class \<open>c\<close>.\<close>

definition class_positions :: "'d label_block \<Rightarrow> int \<Rightarrow> nat set" where
  "class_positions blk c = set (numpy_where (voxels blk) c)"

text \<open>Inputs on which the model is run: the block of the example scenario (class 1 at
  the positions 0 to 3, class 2 at 4 and 5), and a project with this one label block.\<close>

definition example_block :: "string label_block" where
  "example_block = \<lparr>shape = [10], dtype = ''uint8'', voxels = [1, 1, 1, 1, 2, 2, 0, 0, 0, 0]\<rparr>"

definition example_project :: "(string, unit) project" where
  "example_project =
     \<lparr>data_count = 1, get_channel_count = (\<lambda>_. 1), label_names = [''a'', ''b''],
      labelsets_count = 1, get_labels = (\<lambda>_. ([example_block], ()))\<rparr>"

text \<open>A two by two block with a voxel of value 3, used with two classes.\<close>

definition stray_block :: "string label_block" where
  "stray_block = \<lparr>shape = [2, 2], dtype = ''uint8'', voxels = [1, 3, 0, 2]\<rparr>"

text \<open>A block of six voxels of class 1, and a project with this one label block and
  one class.\<close>

definition six_block :: "string label_block" where
  "six_block = \<lparr>shape = [6], dtype = ''uint8'', voxels = [1, 1, 1, 1, 1, 1]\<rparr>"

definition six_project :: "(string, unit) project" where
  "six_project =
     \<lparr>data_count = 1, get_channel_count = (\<lambda>_. 1), label_names = [''a''],
      labelsets_count = 1, get_labels = (\<lambda>_. ([six_block], ()))\<rparr>"

text \<open>The number of voxels of class \<open>c\<close> in every block of every round.\<close>

definition class_counts :: "'d label_block list list \<Rightarrow> int \<Rightarrow> nat list list" where
  "class_counts rounds c = map (map (\<lambda>blk. length (numpy_where (voxels blk) c))) rounds"

subsection \<open>Invariants of the loops\<close>

text \<open>\<open>pool_positions wh av\<close> are the voxel positions whose indices are still in the
  pool \<open>av\<close>; \<open>pool_ok\<close> says that every pool holds different indices into its
  coordinate list, \<open>wh_ok\<close> that the coordinate list of class \<open>i + 1\<close> holds different
  positions of the block, all with value \<open>i + 1\<close>. \<open>class_inv\<close> is the invariant of
  the loop over the classes (after \<open>m\<close> classes of round \<open>k\<close>), \<open>rounds_inv\<close> the
  invariant of the loop over the rounds (after \<open>k\<close> rounds), and \<open>round_rel\<close> relates
  the states before and after one round.\<close>

definition pool_positions :: "nat list \<Rightarrow> nat list \<Rightarrow> nat set" where
  "pool_positions wh av = (\<lambda>j. wh ! j) ` set av"

definition pool_ok :: "nat list list \<Rightarrow> nat list list \<Rightarrow> bool" where
  "pool_ok wh_list av \<longleftrightarrow>
     length av = length wh_list \<and>
     (\<forall>i<length wh_list. distinct (av ! i) \<and> (\<forall>j\<in>set (av ! i). j < length (wh_list ! i)))"

definition wh_ok :: "nat list list \<Rightarrow> int list \<Rightarrow> bool" where
  "wh_ok wh_list vs \<longleftrightarrow>
     (\<forall>i<length wh_list. distinct (wh_list ! i) \<and>
        (\<forall>p\<in>set (wh_list ! i). p < length vs \<and> vs ! p = int i + 1))"

definition class_inv ::
  "nat list list \<Rightarrow> int list \<Rightarrow> int \<Rightarrow> nat \<Rightarrow> nat list list \<Rightarrow> 'd label_block \<Rightarrow> nat
     \<Rightarrow> nat list list \<times> 'd label_block \<times> 'g \<Rightarrow> bool" where
  "class_inv wh_list vs n k av0 blk0 m st \<longleftrightarrow>
     (case st of (av, block, g) \<Rightarrow>
        pool_ok wh_list av
      \<and> (\<forall>i<length wh_list. m \<le> i \<longrightarrow> av ! i = av0 ! i)
      \<and> (\<forall>i<m. set (av ! i) \<subseteq> set (av0 ! i) \<and>
            (\<exists>c. num_samples (length (av0 ! i)) n k = Inr c \<and> 0 \<le> c
                 \<and> c \<le> int (length (av0 ! i))
                 \<and> int (length (av ! i)) = int (length (av0 ! i)) - c))
      \<and> shape block = shape blk0 \<and> dtype block = dtype blk0
      \<and> length (voxels block) = length vs
      \<and> (\<forall>p<length vs. voxels block ! p =
            (if \<exists>i<m. p \<in> pool_positions (wh_list ! i) (av0 ! i)
                          - pool_positions (wh_list ! i) (av ! i)
             then vs ! p else 0)))"

definition assigned :: "nat list list \<Rightarrow> nat list list \<Rightarrow> nat \<Rightarrow> bool" where
  "assigned wh_list av p \<longleftrightarrow>
     (\<exists>i<length wh_list. p \<in> set (wh_list ! i) - pool_positions (wh_list ! i) (av ! i))"

definition rounds_inv ::
  "nat list list \<Rightarrow> 'd label_block \<Rightarrow> int \<Rightarrow> nat
     \<Rightarrow> nat list list \<times> 'g \<times> 'd label_block list \<Rightarrow> bool" where
  "rounds_inv wh_list b n k st \<longleftrightarrow>
     (case st of (av, g, bs) \<Rightarrow>
        pool_ok wh_list av \<and> length bs = k
      \<and> (\<forall>r<k. shape (bs ! r) = shape b \<and> dtype (bs ! r) = dtype b
                \<and> length (voxels (bs ! r)) = length (voxels b))
      \<and> (\<forall>p<length (voxels b). \<forall>r<k.
            voxels (bs ! r) ! p = 0 \<or> voxels (bs ! r) ! p = voxels b ! p)
      \<and> (\<forall>p<length (voxels b).
            (\<exists>r<k. voxels (bs ! r) ! p \<noteq> 0) \<longleftrightarrow> assigned wh_list av p)
      \<and> (\<forall>p<length (voxels b). \<forall>r<k. \<forall>r'<k.
            r \<noteq> r' \<longrightarrow> voxels (bs ! r) ! p = 0 \<or> voxels (bs ! r') ! p = 0)
      \<and> (int k = n \<and> 0 < k \<longrightarrow> (\<forall>i<length wh_list. av ! i = [])))"

definition round_rel ::
  "nat list list \<Rightarrow> int \<Rightarrow> nat
     \<Rightarrow> nat list list \<times> 'g \<times> 'd label_block list
     \<Rightarrow> nat list list \<times> 'g \<times> 'd label_block list \<Rightarrow> bool" where
  "round_rel wh_list n k st st' \<longleftrightarrow>
     (case st of (av, g, bs) \<Rightarrow> case st' of (av', g', bs') \<Rightarrow>
        (\<forall>i<length wh_list. set (av' ! i) \<subseteq> set (av ! i) \<and>
            (\<exists>c. num_samples (length (av ! i)) n k = Inr c \<and> 0 \<le> c
                 \<and> c \<le> int (length (av ! i))
                 \<and> int (length (av' ! i)) = int (length (av ! i)) - c)))"

text \<open>\<open>labels_inv\<close> is the invariant of the loop of \<^verbatim>\<open>scatter_labels\<close> after \<open>j\<close>
  blocks: every round holds \<open>j\<close> blocks, and block \<open>j'\<close> of round \<open>i\<close> is round \<open>i\<close> of
  the partition of input block \<open>j'\<close>, computed from the generator state \<open>gs ! j'\<close>
  that the partition of the block before it has left.\<close>

definition labels_inv ::
  "'g sampler \<Rightarrow> 'g \<Rightarrow> 'd label_block list \<Rightarrow> int \<Rightarrow> int \<Rightarrow> nat
     \<Rightarrow> 'd label_block list list \<times> 'g \<Rightarrow> bool" where
  "labels_inv smp g label_blocks label_count n j st \<longleftrightarrow>
     (case st of (rl, gj) \<Rightarrow>
        length rl = nat n
      \<and> (\<forall>i<nat n. length (rl ! i) = j)
      \<and> (\<exists>gs. length gs = Suc j \<and> gs ! 0 = g \<and> gs ! j = gj
            \<and> (\<forall>j'<j. \<exists>sb.
                  scatter_labels_single_block smp (gs ! j') (label_blocks ! j') label_count n
                    = Inr (sb, gs ! Suc j')
                  \<and> length sb = nat n \<and> (\<forall>i<nat n. rl ! i ! j' = sb ! i))))"

section \<open>Lemmas\<close>

lemma for_loop_append:
  "for_loop body (xs @ ys) s =
     (case for_loop body xs s of Inl e \<Rightarrow> Inl e | Inr s' \<Rightarrow> for_loop body ys s')"
  by (induction xs arbitrary: s) (auto split: sum.splits)

lemma for_loop_upt:
  assumes "I 0 s0"
    and "\<And>k s. k < n \<Longrightarrow> I k s \<Longrightarrow> \<exists>s'. body k s = Inr s' \<and> I (Suc k) s'"
  shows "\<exists>s'. for_loop body [0..<n] s0 = Inr s' \<and> I n s'"
  using assms(2)
proof (induction n)
  case 0
  show ?case using assms(1) by simp
next
  case (Suc n)
  then obtain s where s: "for_loop body [0..<n] s0 = Inr s" "I n s"
    by (metis less_Suc_eq)
  from Suc.prems[of n s] s obtain s' where "body n s = Inr s'" "I (Suc n) s'"
    by auto
  then show ?case using s by (simp add: for_loop_append)
qed

lemma ceil_div_nonneg: "1 \<le> (d::int) \<Longrightarrow> 0 \<le> a \<Longrightarrow> 0 \<le> - ((- a) div d)"
  using div_nonpos_pos_le0[of "- a" d] by simp

lemma ceil_div_le: 
  assumes "1 \<le> (d::int)" "0 \<le> a" shows "- ((- a) div d) \<le> a"
proof (cases "a = 0")
  case True then show ?thesis by simp
next
  case False
  then have "- a < 0" using assms by simp
  from zdiv_mono2_neg[OF this, of 1 d] assms show ?thesis by simp
qed



lemma length_filter_not_chosen:
  assumes "distinct av" "distinct ch" "set ch \<subseteq> set av"
  shows "length (filter (\<lambda>x. x \<notin> set ch) av) + length ch = length av"
proof -
  have "length (filter (\<lambda>x. x \<notin> set ch) av) = card (set av - set ch)"
    using assms(1) by (simp add: distinct_length_filter Diff_eq Collect_neg_eq Int_commute)
  moreover have "length ch = card (set ch)" "length av = card (set av)"
    using assms by (simp_all add: distinct_card)
  moreover have "card (set av - set ch) + card (set ch) = card (set av)"
    using assms(3) by (simp add: card_Diff_subset card_mono)
  ultimately show ?thesis by simp
qed

lemma fold_update_nth:
  "q < length xs \<Longrightarrow>
     (fold (\<lambda>p ys. ys[p := v]) ps xs) ! q = (if q \<in> set ps then v else xs ! q)"
  by (induction ps arbitrary: xs) (auto simp: nth_list_update)

lemma fold_update_length:
  "length (fold (\<lambda>p ys. ys[p := v]) ps xs) = length xs"
  by (induction ps arbitrary: xs) auto

lemma pool_positions_diff:
  assumes "distinct wh" "\<forall>j\<in>set a. j < length wh" "set a' \<subseteq> set a"
  shows "pool_positions wh (filter (\<lambda>x. x \<notin> set a') a) = pool_positions wh a - pool_positions wh a'"
  using assms unfolding pool_positions_def
  by (auto simp: nth_eq_iff_index_eq subset_iff)

lemma scatter_class_step:
  assumes smp: "sampler_ok smp" and kn: "int k < n" and i: "i < length wh_list"
    and pool: "pool_ok wh_list av" and wh: "wh_ok wh_list vs"
    and lb: "length (voxels block) = length vs"
  shows "\<exists>a' block' g'.
      scatter_class smp wh_list n k i (av, block, g) = Inr (av[i := a'], block', g')
    \<and> distinct a' \<and> set a' \<subseteq> set (av ! i)
    \<and> (\<exists>c. num_samples (length (av ! i)) n k = Inr c \<and> 0 \<le> c \<and> c \<le> int (length (av ! i))
         \<and> int (length a') = int (length (av ! i)) - c)
    \<and> shape block' = shape block \<and> dtype block' = dtype block
    \<and> length (voxels block') = length (voxels block)
    \<and> (\<forall>p<length (voxels block). voxels block' ! p =
          (if p \<in> pool_positions (wh_list ! i) (av ! i) - pool_positions (wh_list ! i) a'
           then int i + 1 else voxels block ! p))"
proof -
  let ?a = "av ! i"
  let ?c = "- ((- int (length ?a)) div (n - int k))"
  have d: "1 \<le> n - int k" using kn by simp
  have ns: "num_samples (length ?a) n k = Inr ?c"
    using d by (simp add: num_samples_def)
  have c0: "0 \<le> ?c" and c1: "?c \<le> int (length ?a)"
    using ceil_div_nonneg[OF d, of "int (length ?a)"] ceil_div_le[OF d, of "int (length ?a)"]
    by simp_all
  have len: "length av = length wh_list" and da: "distinct ?a"
    and ra: "\<forall>j\<in>set ?a. j < length (wh_list ! i)"
    using pool i by (auto simp: pool_ok_def)
  obtain ch g' where sm: "smp g ?a (nat ?c) = (ch, g')" by (cases "smp g ?a (nat ?c)")
  have "nat ?c \<le> length ?a" using c1 by simp
  with smp da sm have ch: "distinct ch" "set ch \<subseteq> set ?a" "length ch = nat ?c"
    unfolding sampler_ok_def by (metis fst_conv)+
  have rs: "random_sample smp g ?a ?c = Inr (ch, g')"
    using c0 c1 sm by (simp add: random_sample_def)
  let ?a' = "filter (\<lambda>x. x \<notin> set ch) ?a"
  have chr: "\<forall>j\<in>set ch. j < length (wh_list ! i)" using ch(2) ra by auto
  then have ti: "take_indices (wh_list ! i) ch = Inr (map (\<lambda>j. wh_list ! i ! j) ch)"
    by (simp add: take_indices_def)
  have whi: "distinct (wh_list ! i)" "\<forall>p\<in>set (wh_list ! i). p < length (voxels block)"
    using wh i lb by (auto simp: wh_ok_def)
  have inr: "\<forall>p\<in>set (map (\<lambda>j. wh_list ! i ! j) ch). p < length (voxels block)"
    using chr whi(2) by auto
  let ?block' = "block\<lparr>voxels := fold (\<lambda>p ys. ys[p := int i + 1]) (map (\<lambda>j. wh_list ! i ! j) ch) (voxels block)\<rparr>"
  have pi: "put_indices block (map (\<lambda>j. wh_list ! i ! j) ch) (int i + 1) = Inr ?block'"
    using inr unfolding put_indices_def by simp
  have run: "scatter_class smp wh_list n k i (av, block, g) = Inr (av[i := ?a'], ?block', g')"
    using i len ns rs ti pi by (simp add: scatter_class_def Let_def)
  have la: "int (length ?a') = int (length ?a) - ?c"
    using length_filter_not_chosen[OF da ch(1) ch(2)] ch(3) c0 by simp
  have "set ch = set ?a - set ?a'" using ch(2) by auto
  have pp: "set (map (\<lambda>j. wh_list ! i ! j) ch)
            = pool_positions (wh_list ! i) ?a - pool_positions (wh_list ! i) ?a'"
  proof -
    have "pool_positions (wh_list ! i) ?a' = pool_positions (wh_list ! i) ?a - pool_positions (wh_list ! i) ch"
      by (rule pool_positions_diff[OF whi(1) ra ch(2)])
    moreover have "pool_positions (wh_list ! i) ch \<subseteq> pool_positions (wh_list ! i) ?a"
      using ch(2) by (auto simp: pool_positions_def)
    ultimately show ?thesis by (auto simp: pool_positions_def)
  qed
  have vox: "\<forall>p<length (voxels block). voxels ?block' ! p =
          (if p \<in> pool_positions (wh_list ! i) ?a - pool_positions (wh_list ! i) ?a'
           then int i + 1 else voxels block ! p)"
    using pp by (simp add: fold_update_nth)
  show ?thesis
    apply (rule exI[of _ ?a'], rule exI[of _ ?block'], rule exI[of _ g'])
    using run da la ns c0 c1 vox by (simp add: fold_update_length)
qed

lemma pool_positions_wh:
  assumes "wh_ok wh_list vs" "pool_ok wh_list av" "i < length wh_list"
    "p \<in> pool_positions (wh_list ! i) (av ! i)"
  shows "p \<in> set (wh_list ! i)" "p < length vs" "vs ! p = int i + 1"
proof -
  from assms(4) obtain j where j: "j \<in> set (av ! i)" "p = wh_list ! i ! j"
    by (auto simp: pool_positions_def)
  with assms(2,3) have "j < length (wh_list ! i)" by (auto simp: pool_ok_def)
  with j show "p \<in> set (wh_list ! i)" by simp
  with assms(1,3) show "p < length vs" "vs ! p = int i + 1" by (auto simp: wh_ok_def)
qed

lemma class_inv_step:
  assumes smp: "sampler_ok smp" and kn: "int k < n" and m: "m < length wh_list"
    and wh: "wh_ok wh_list vs" and p0: "pool_ok wh_list av0"
    and inv: "class_inv wh_list vs n k av0 blk0 m st"
  shows "\<exists>st'. scatter_class smp wh_list n k m st = Inr st'
           \<and> class_inv wh_list vs n k av0 blk0 (Suc m) st'"
proof -
  obtain av block g where st: "st = (av, block, g)" by (cases st)
  from inv st have pool: "pool_ok wh_list av"
    and same: "\<forall>i<length wh_list. m \<le> i \<longrightarrow> av ! i = av0 ! i"
    and prev: "\<forall>i<m. set (av ! i) \<subseteq> set (av0 ! i) \<and>
            (\<exists>c. num_samples (length (av0 ! i)) n k = Inr c \<and> 0 \<le> c
                 \<and> c \<le> int (length (av0 ! i))
                 \<and> int (length (av ! i)) = int (length (av0 ! i)) - c)"
    and sh: "shape block = shape blk0" "dtype block = dtype blk0"
    and lb: "length (voxels block) = length vs"
    and vx: "\<forall>p<length vs. voxels block ! p =
            (if \<exists>i<m. p \<in> pool_positions (wh_list ! i) (av0 ! i)
                          - pool_positions (wh_list ! i) (av ! i)
             then vs ! p else 0)"
    by (simp_all add: class_inv_def)
  from scatter_class_step[OF smp kn m pool wh lb, of g]
  obtain a' block' g' where
    run: "scatter_class smp wh_list n k m (av, block, g) = Inr (av[m := a'], block', g')"
    and a': "distinct a'" "set a' \<subseteq> set (av ! m)"
    and c: "\<exists>c. num_samples (length (av ! m)) n k = Inr c \<and> 0 \<le> c \<and> c \<le> int (length (av ! m))
         \<and> int (length a') = int (length (av ! m)) - c"
    and sh': "shape block' = shape block" "dtype block' = dtype block"
      "length (voxels block') = length (voxels block)"
    and vx': "\<forall>p<length (voxels block). voxels block' ! p =
          (if p \<in> pool_positions (wh_list ! m) (av ! m) - pool_positions (wh_list ! m) a'
           then int m + 1 else voxels block ! p)"
    by blast
  have lav: "length av = length wh_list" using pool by (simp add: pool_ok_def)
  have avm: "av ! m = av0 ! m" using same m by simp
  have pool': "pool_ok wh_list (av[m := a'])"
    using pool a' m unfolding pool_ok_def by (auto simp: nth_list_update)
  have same': "\<forall>i<length wh_list. Suc m \<le> i \<longrightarrow> av[m := a'] ! i = av0 ! i"
    using same by (simp add: nth_list_update)
  have prev': "\<forall>i<Suc m. set (av[m := a'] ! i) \<subseteq> set (av0 ! i) \<and>
            (\<exists>c. num_samples (length (av0 ! i)) n k = Inr c \<and> 0 \<le> c
                 \<and> c \<le> int (length (av0 ! i))
                 \<and> int (length (av[m := a'] ! i)) = int (length (av0 ! i)) - c)"
  proof (intro allI impI)
    fix i assume "i < Suc m"
    then consider "i < m" | "i = m" by linarith
    then show "set (av[m := a'] ! i) \<subseteq> set (av0 ! i) \<and>
            (\<exists>c. num_samples (length (av0 ! i)) n k = Inr c \<and> 0 \<le> c
                 \<and> c \<le> int (length (av0 ! i))
                 \<and> int (length (av[m := a'] ! i)) = int (length (av0 ! i)) - c)"
    proof cases
      case 1 then show ?thesis using prev by (simp add: nth_list_update)
    next
      case 2 then show ?thesis using a'(2) c avm m lav by (simp add: nth_list_update)
    qed
  qed
  have vx'': "\<forall>p<length vs. voxels block' ! p =
            (if \<exists>i<Suc m. p \<in> pool_positions (wh_list ! i) (av0 ! i)
                          - pool_positions (wh_list ! i) (av[m := a'] ! i)
             then vs ! p else 0)"
  proof (intro allI impI)
    fix p assume p: "p < length vs"
    let ?new = "p \<in> pool_positions (wh_list ! m) (av ! m) - pool_positions (wh_list ! m) a'"
    have ex: "(\<exists>i<Suc m. p \<in> pool_positions (wh_list ! i) (av0 ! i)
                          - pool_positions (wh_list ! i) (av[m := a'] ! i))
          \<longleftrightarrow> ?new \<or> (\<exists>i<m. p \<in> pool_positions (wh_list ! i) (av0 ! i)
                          - pool_positions (wh_list ! i) (av ! i))"
      using avm m lav by (auto simp: nth_list_update less_Suc_eq)
    show "voxels block' ! p =
            (if \<exists>i<Suc m. p \<in> pool_positions (wh_list ! i) (av0 ! i)
                          - pool_positions (wh_list ! i) (av[m := a'] ! i)
             then vs ! p else 0)"
    proof (cases ?new)
      case True
      then have "vs ! p = int m + 1"
        using pool_positions_wh(3)[OF wh pool m, of p] by simp
      moreover have "voxels block' ! p = int m + 1"
        using vx' p lb True by auto
      moreover have "\<exists>i<Suc m. p \<in> pool_positions (wh_list ! i) (av0 ! i)
                          - pool_positions (wh_list ! i) (av[m := a'] ! i)"
        using ex True by blast
      ultimately show ?thesis by (simp only: if_True)
    next
      case False
      have h1: "voxels block' ! p = voxels block ! p"
        using vx' p lb False by auto
      have h2: "voxels block ! p =
            (if \<exists>i<m. p \<in> pool_positions (wh_list ! i) (av0 ! i)
                          - pool_positions (wh_list ! i) (av ! i)
             then vs ! p else 0)"
        using vx p by blast
      have h3: "(\<exists>i<Suc m. p \<in> pool_positions (wh_list ! i) (av0 ! i)
                          - pool_positions (wh_list ! i) (av[m := a'] ! i))
          \<longleftrightarrow> (\<exists>i<m. p \<in> pool_positions (wh_list ! i) (av0 ! i)
                          - pool_positions (wh_list ! i) (av ! i))"
        using ex False by blast
      show ?thesis by (simp only: h1 h2 h3)
    qed
  qed
  have "class_inv wh_list vs n k av0 blk0 (Suc m) (av[m := a'], block', g')"
    unfolding class_inv_def using pool' same' prev' vx'' sh sh' lb by simp
  with run st show ?thesis by simp
qed

lemma class_loop:
  assumes smp: "sampler_ok smp" and kn: "int k < n"
    and wh: "wh_ok wh_list vs" and p0: "pool_ok wh_list av0"
    and l0: "length (voxels blk0) = length vs" and z0: "\<forall>p<length vs. voxels blk0 ! p = 0"
  shows "\<exists>st. for_loop (scatter_class smp wh_list n k) [0..<length wh_list] (av0, blk0, g) = Inr st
           \<and> class_inv wh_list vs n k av0 blk0 (length wh_list) st"
proof (rule for_loop_upt)
  show "class_inv wh_list vs n k av0 blk0 0 (av0, blk0, g)"
    using p0 l0 z0 by (simp add: class_inv_def)
next
  show "\<And>m st. m < length wh_list \<Longrightarrow> class_inv wh_list vs n k av0 blk0 m st \<Longrightarrow>
          \<exists>st'. scatter_class smp wh_list n k m st = Inr st'
           \<and> class_inv wh_list vs n k av0 blk0 (Suc m) st'"
    using class_inv_step[OF smp kn _ wh p0] by blast
qed

lemma pool_positions_mono:
  "set a' \<subseteq> set a \<Longrightarrow> pool_positions wh a' \<subseteq> pool_positions wh a"
  by (auto simp: pool_positions_def)

lemma num_samples_last: "num_samples len (int (Suc k)) k = Inr (int len)"
  by (simp add: num_samples_def)

lemma scatter_round_step:
  assumes smp: "sampler_ok smp" and kn: "int k < n"
    and wh: "wh_ok wh_list (voxels b)" and wfb: "wf_block b"
    and lc: "length wh_list = nat lc"
    and inv: "rounds_inv wh_list b n k st"
  shows "\<exists>st'. scatter_round smp wh_list b lc n k st = Inr st'
           \<and> rounds_inv wh_list b n (Suc k) st' \<and> round_rel wh_list n k st st'"
proof -
  let ?N = "length (voxels b)"
  let ?z = "numpy_zeros (shape b) (dtype b)"
  obtain av g bs where st: "st = (av, g, bs)" by (cases st)
  from inv st have pool: "pool_ok wh_list av" and lbs: "length bs = k"
    and shp: "\<forall>r<k. shape (bs ! r) = shape b \<and> dtype (bs ! r) = dtype b
                \<and> length (voxels (bs ! r)) = length (voxels b)"
    and val: "\<forall>p<?N. \<forall>r<k. voxels (bs ! r) ! p = 0 \<or> voxels (bs ! r) ! p = voxels b ! p"
    and asg: "\<forall>p<?N. (\<exists>r<k. voxels (bs ! r) ! p \<noteq> 0) \<longleftrightarrow> assigned wh_list av p"
    and one: "\<forall>p<?N. \<forall>r<k. \<forall>r'<k.
            r \<noteq> r' \<longrightarrow> voxels (bs ! r) ! p = 0 \<or> voxels (bs ! r') ! p = 0"
    by (simp_all add: rounds_inv_def)
  have z: "length (voxels ?z) = ?N" "\<forall>p<?N. voxels ?z ! p = 0"
    "shape ?z = shape b" "dtype ?z = dtype b"
    using wfb by (simp_all add: numpy_zeros_def wf_block_def)
  from class_loop[OF smp kn wh pool z(1) z(2), of g]
  obtain av' blk g' where
    run: "for_loop (scatter_class smp wh_list n k) [0..<length wh_list] (av, ?z, g)
            = Inr (av', blk, g')"
    and ci: "class_inv wh_list (voxels b) n k av ?z (length wh_list) (av', blk, g')"
    by (metis prod_cases3)
  from ci have pool': "pool_ok wh_list av'"
    and rel: "\<forall>i<length wh_list. set (av' ! i) \<subseteq> set (av ! i) \<and>
            (\<exists>c. num_samples (length (av ! i)) n k = Inr c \<and> 0 \<le> c
                 \<and> c \<le> int (length (av ! i))
                 \<and> int (length (av' ! i)) = int (length (av ! i)) - c)"
    and sh: "shape blk = shape b" "dtype blk = dtype b" "length (voxels blk) = ?N"
    and vx: "\<forall>p<?N. voxels blk ! p =
            (if \<exists>i<length wh_list. p \<in> pool_positions (wh_list ! i) (av ! i)
                          - pool_positions (wh_list ! i) (av' ! i)
             then voxels b ! p else 0)"
    using z(3,4) by (simp_all add: class_inv_def)
  let ?st' = "(av', g', bs @ [blk])"
  have step: "scatter_round smp wh_list b lc n k st = Inr ?st'"
    using run lc st by (simp add: scatter_round_def py_range_def Let_def)
  let ?new = "\<lambda>p. \<exists>i<length wh_list. p \<in> pool_positions (wh_list ! i) (av ! i)
                          - pool_positions (wh_list ! i) (av' ! i)"
  have sub: "\<And>i. i < length wh_list \<Longrightarrow>
      pool_positions (wh_list ! i) (av' ! i) \<subseteq> pool_positions (wh_list ! i) (av ! i)"
    using rel pool_positions_mono by blast
  have inwh: "\<And>i p. i < length wh_list \<Longrightarrow> p \<in> pool_positions (wh_list ! i) (av ! i)
      \<Longrightarrow> p \<in> set (wh_list ! i) \<and> voxels b ! p = int i + 1"
    using pool_positions_wh[OF wh pool] by blast
  have whv: "\<And>i p. i < length wh_list \<Longrightarrow> p \<in> set (wh_list ! i) \<Longrightarrow> voxels b ! p = int i + 1"
    using wh by (auto simp: wh_ok_def)
  have f2: "\<And>p. assigned wh_list av' p \<longleftrightarrow> assigned wh_list av p \<or> ?new p"
    unfolding assigned_def using sub inwh by blast
  have f3: "\<And>p. assigned wh_list av p \<Longrightarrow> \<not> ?new p"
  proof
    fix p assume "assigned wh_list av p" "?new p"
    then obtain i j where i: "i < length wh_list" "p \<in> set (wh_list ! i)"
        "p \<notin> pool_positions (wh_list ! i) (av ! i)"
      and j: "j < length wh_list" "p \<in> pool_positions (wh_list ! j) (av ! j)"
      by (auto simp: assigned_def)
    from whv[OF i(1,2)] inwh[OF j] have "i = j" by simp
    with i j show False by simp
  qed
  have f4: "\<And>p. ?new p \<Longrightarrow> voxels b ! p \<noteq> 0"
    using inwh by fastforce
  have nz: "\<And>p. p < ?N \<Longrightarrow> voxels blk ! p \<noteq> 0 \<longleftrightarrow> ?new p"
    using vx f4 by simp
  have nth': "\<And>r. r < Suc k \<Longrightarrow> (bs @ [blk]) ! r = (if r < k then bs ! r else blk)"
    using lbs by (simp add: nth_append)
  have shp': "\<forall>r<Suc k. shape ((bs @ [blk]) ! r) = shape b \<and> dtype ((bs @ [blk]) ! r) = dtype b
                \<and> length (voxels ((bs @ [blk]) ! r)) = length (voxels b)"
    using shp sh nth' by simp
  have val': "\<forall>p<?N. \<forall>r<Suc k.
       voxels ((bs @ [blk]) ! r) ! p = 0 \<or> voxels ((bs @ [blk]) ! r) ! p = voxels b ! p"
    using val vx nth' by simp
  have asg': "\<forall>p<?N. (\<exists>r<Suc k. voxels ((bs @ [blk]) ! r) ! p \<noteq> 0)
                \<longleftrightarrow> assigned wh_list av' p"
  proof (intro allI impI)
    fix p assume p: "p < ?N"
    have "(\<exists>r<Suc k. voxels ((bs @ [blk]) ! r) ! p \<noteq> 0)
          \<longleftrightarrow> (\<exists>r<k. voxels (bs ! r) ! p \<noteq> 0) \<or> voxels blk ! p \<noteq> 0"
      using nth' by (auto simp: less_Suc_eq)
    also have "\<dots> \<longleftrightarrow> assigned wh_list av p \<or> ?new p"
      using asg nz p by simp
    finally show "(\<exists>r<Suc k. voxels ((bs @ [blk]) ! r) ! p \<noteq> 0)
                \<longleftrightarrow> assigned wh_list av' p"
      using f2 by simp
  qed
  have one': "\<forall>p<?N. \<forall>r<Suc k. \<forall>r'<Suc k. r \<noteq> r' \<longrightarrow>
       voxels ((bs @ [blk]) ! r) ! p = 0 \<or> voxels ((bs @ [blk]) ! r') ! p = 0"
  proof (intro allI impI)
    fix p r r' assume p: "p < ?N" and r: "r < Suc k" "r' < Suc k" "r \<noteq> r'"
    have old: "\<And>q. q < k \<Longrightarrow> voxels (bs ! q) ! p \<noteq> 0 \<Longrightarrow> voxels blk ! p = 0"
      using asg f3 nz p by blast
    consider "r < k" "r' < k" | "r < k" "r' = k" | "r = k" "r' < k"
      using r by linarith
    then show "voxels ((bs @ [blk]) ! r) ! p = 0 \<or> voxels ((bs @ [blk]) ! r') ! p = 0"
    proof cases
      case 1 then show ?thesis using one p r nth' by simp
    next
      case 2 then show ?thesis using old[of r] nth' by auto
    next
      case 3 then show ?thesis using old[of r'] nth' by auto
    qed
  qed
  have last: "int (Suc k) = n \<and> 0 < Suc k \<longrightarrow> (\<forall>i<length wh_list. av' ! i = [])"
  proof (intro impI allI)
    fix i assume n: "int (Suc k) = n \<and> 0 < Suc k" and i: "i < length wh_list"
    from rel i obtain c where "num_samples (length (av ! i)) n k = Inr c"
       "int (length (av' ! i)) = int (length (av ! i)) - c" by blast
    with n num_samples_last[of "length (av ! i)" k] show "av' ! i = []" by auto
  qed
  have "rounds_inv wh_list b n (Suc k) ?st'"
    unfolding rounds_inv_def using pool' lbs shp' val' asg' one' last by simp
  moreover have "round_rel wh_list n k st ?st'"
    unfolding round_rel_def using rel st by simp
  ultimately show ?thesis using step by blast
qed

lemma class_positions_iff:
  "p \<in> class_positions blk c \<longleftrightarrow> p < length (voxels blk) \<and> voxels blk ! p = c"
  by (auto simp: class_positions_def numpy_where_def)

lemma length_wh_list_of: "length (wh_list_of b lc) = nat lc"
  by (simp add: wh_list_of_def py_range_def)

lemma nth_wh_list_of:
  "i < nat lc \<Longrightarrow> wh_list_of b lc ! i = numpy_where (voxels b) (int i + 1)"
  by (simp add: wh_list_of_def py_range_def)

lemma set_wh_list_of:
  "i < nat lc \<Longrightarrow> set (wh_list_of b lc ! i) = class_positions b (int i + 1)"
  by (simp add: nth_wh_list_of class_positions_def)

lemma wh_ok_wh_list_of: "wh_ok (wh_list_of b lc) (voxels b)"
  by (auto simp: wh_ok_def length_wh_list_of nth_wh_list_of numpy_where_def)

lemma pool_ok_available_list_of: "pool_ok wh_list (available_list_of wh_list)"
  by (simp add: pool_ok_def available_list_of_def)

lemma pool_positions_upt: "pool_positions wh [0..<length wh] = set wh"
proof -
  have "set (map (\<lambda>j. wh ! j) [0..<length wh]) = set wh"
    by (simp only: map_nth)
  then show ?thesis unfolding pool_positions_def by (simp only: set_map)
qed

lemma pool_positions_all:
  "i < length wh_list \<Longrightarrow>
     pool_positions (wh_list ! i) (available_list_of wh_list ! i) = set (wh_list ! i)"
  by (simp add: available_list_of_def pool_positions_upt)

lemma rounds_inv_init:
  "rounds_inv wh_list b n 0 (available_list_of wh_list, g, [])"
  by (simp add: rounds_inv_def pool_ok_available_list_of assigned_def pool_positions_all)

lemma scatter_rounds_run:
  fixes smp :: "'g sampler" and b :: "'d label_block"
  assumes smp: "sampler_ok smp" and wfb: "wf_block b" and kn: "int k \<le> n"
  shows "\<exists>st. scatter_rounds smp g b lc n [0..<k] = Inr st
           \<and> rounds_inv (wh_list_of b lc) b n k st"
  unfolding scatter_rounds_def Let_def
proof (rule for_loop_upt)
  show "rounds_inv (wh_list_of b lc) b n 0 (available_list_of (wh_list_of b lc), g, [])"
    by (rule rounds_inv_init)
next
  show "\<And>j st. j < k \<Longrightarrow> rounds_inv (wh_list_of b lc) b n j st \<Longrightarrow>
          \<exists>st'. scatter_round smp (wh_list_of b lc) b lc n j st = Inr st'
               \<and> rounds_inv (wh_list_of b lc) b n (Suc j) st'"
  proof -
    fix j and st :: "nat list list \<times> 'g \<times> 'd label_block list"
    assume j: "j < k" and inv: "rounds_inv (wh_list_of b lc) b n j st"
    have "int j < n" using j kn by simp
    from scatter_round_step[OF smp this wh_ok_wh_list_of wfb length_wh_list_of inv]
    show "\<exists>st'. scatter_round smp (wh_list_of b lc) b lc n j st = Inr st'
               \<and> rounds_inv (wh_list_of b lc) b n (Suc j) st'" by blast
  qed
qed


text \<open>What the partitioner returns, in terms of the final loop state.\<close>

lemma single_block_run:
  assumes smp: "sampler_ok smp" and wfb: "wf_block b"
  shows "\<exists>av g' bs. scatter_labels_single_block smp g b lc n = Inr (bs, g')
           \<and> rounds_inv (wh_list_of b lc) b n (nat n) (av, g', bs)"
proof -
  have "int (nat n) \<le> n \<or> n < 0" by linarith
  then have "\<exists>st. scatter_rounds smp g b lc n [0..<nat n] = Inr st
           \<and> rounds_inv (wh_list_of b lc) b n (nat n) st"
  proof
    assume "int (nat n) \<le> n"
    then show ?thesis by (rule scatter_rounds_run[OF smp wfb])
  next
    assume "n < 0"
    then have "nat n = 0" by simp
    then show ?thesis
      using rounds_inv_init[of "wh_list_of b lc" b n g]
      by (simp add: scatter_rounds_def)
  qed
  then obtain av g' bs where "scatter_rounds smp g b lc n [0..<nat n] = Inr (av, g', bs)"
    "rounds_inv (wh_list_of b lc) b n (nat n) (av, g', bs)"
    by (metis prod_cases3)
  then show ?thesis
    by (auto simp: scatter_labels_single_block_def py_range_def)
qed

lemma assigned_final:
  assumes "\<forall>i<nat lc. av ! i = []" "p < length (voxels b)"
  shows "assigned (wh_list_of b lc) av p \<longleftrightarrow> 1 \<le> voxels b ! p \<and> voxels b ! p \<le> lc"
proof -
  have "assigned (wh_list_of b lc) av p \<longleftrightarrow> (\<exists>i<nat lc. voxels b ! p = int i + 1)"
    using assms
    by (auto simp: assigned_def length_wh_list_of set_wh_list_of class_positions_iff
          pool_positions_def)
  also have "\<dots> \<longleftrightarrow> 1 \<le> voxels b ! p \<and> voxels b ! p \<le> lc"
  proof
    assume "\<exists>i<nat lc. voxels b ! p = int i + 1"
    then show "1 \<le> voxels b ! p \<and> voxels b ! p \<le> lc" by auto
  next
    assume a: "1 \<le> voxels b ! p \<and> voxels b ! p \<le> lc"
    then have "nat (voxels b ! p - 1) < nat lc" "voxels b ! p = int (nat (voxels b ! p - 1)) + 1"
      by auto
    then show "\<exists>i<nat lc. voxels b ! p = int i + 1" by blast
  qed
  finally show ?thesis .
qed

lemma assigned_in_range:
  assumes "assigned (wh_list_of b lc) av p"
  shows "1 \<le> voxels b ! p \<and> voxels b ! p \<le> lc"
proof -
  from assms obtain i where "i < nat lc" "p \<in> class_positions b (int i + 1)"
    by (auto simp: assigned_def length_wh_list_of set_wh_list_of)
  then show ?thesis by (auto simp: class_positions_iff)
qed

lemma lcg_sample_ok_aux:
  "distinct pop \<Longrightarrow> k \<le> length pop \<Longrightarrow>
     distinct (fst (lcg_sample g pop k)) \<and> set (fst (lcg_sample g pop k)) \<subseteq> set pop
     \<and> length (fst (lcg_sample g pop k)) = k"
proof (induction k arbitrary: g pop)
  case 0
  then show ?case by simp
next
  case (Suc k)
  then have ne: "pop \<noteq> []" by auto
  let ?j = "g mod length pop"
  let ?rest = "take ?j pop @ drop (Suc ?j) pop"
  have j: "?j < length pop" using ne by simp
  have pop: "take ?j pop @ pop ! ?j # drop (Suc ?j) pop = pop"
    using j by (simp add: id_take_nth_drop[symmetric])
  have "distinct (take ?j pop @ pop ! ?j # drop (Suc ?j) pop)"
    using Suc.prems(1) by (simp only: pop)
  then have d: "distinct ?rest" and notin: "pop ! ?j \<notin> set ?rest"
    by auto
  have sub: "set ?rest \<subseteq> set pop"
    by (auto dest: in_set_takeD in_set_dropD)
  have len: "k \<le> length ?rest" using Suc.prems(2) j by simp
  from Suc.IH[OF d len, of "lcg_next g"]
  have ih: "distinct (fst (lcg_sample (lcg_next g) ?rest k))"
    "set (fst (lcg_sample (lcg_next g) ?rest k)) \<subseteq> set ?rest"
    "length (fst (lcg_sample (lcg_next g) ?rest k)) = k"
    by simp_all
  have "pop ! ?j \<in> set pop" using j by simp
  with ih notin sub ne show ?case by (auto simp: Let_def)
qed

lemma lcg_sample_ok: "sampler_ok lcg_sample"
  unfolding sampler_ok_def using lcg_sample_ok_aux by blast

lemma wf_example_block: "wf_block example_block"
  by (simp add: wf_block_def example_block_def)

lemma wf_stray_block: "wf_block stray_block"
  by (simp add: wf_block_def stray_block_def)

lemma for_loop_map:
  "for_loop body (map f xs) s = for_loop (\<lambda>x. body (f x)) xs s"
  by (induction xs arbitrary: s) (auto split: sum.splits)

lemma for_loop_nth:
  "for_loop body xs s = for_loop (\<lambda>j. body (xs ! j)) [0..<length xs] s"
proof -
  have "for_loop body (map (\<lambda>j. xs ! j) [0..<length xs]) s
          = for_loop (\<lambda>j. body (xs ! j)) [0..<length xs] s"
    by (rule for_loop_map)
  then show ?thesis by (simp only: map_nth)
qed

lemma enumerate_nth: "enumerate 0 xs = map (\<lambda>i. (i, xs ! i)) [0..<length xs]"
  by (rule nth_equalityI) (simp_all add: nth_enumerate_eq)

lemma append_rounds:
  assumes "length sb = length rl"
  shows "for_loop append_round (enumerate 0 sb) rl
           = Inr (map (\<lambda>i. rl ! i @ [sb ! i]) [0..<length rl])"
proof -
  let ?I = "\<lambda>m rl'. length rl' = length rl
              \<and> (\<forall>i<length rl. rl' ! i = (if i < m then rl ! i @ [sb ! i] else rl ! i))"
  have "\<exists>rl'. for_loop (\<lambda>i. append_round (i, sb ! i)) [0..<length sb] rl = Inr rl'
           \<and> ?I (length sb) rl'"
  proof (rule for_loop_upt[where I = ?I])
    show "?I 0 rl" by simp
  next
    show "\<And>k s. k < length sb \<Longrightarrow> ?I k s \<Longrightarrow>
            \<exists>s'. append_round (k, sb ! k) s = Inr s' \<and> ?I (Suc k) s'"
      using assms by (auto simp: append_round_def nth_list_update)
  qed
  then obtain rl' where run: "for_loop (\<lambda>i. append_round (i, sb ! i)) [0..<length sb] rl = Inr rl'"
    and l: "length rl' = length rl"
    and v: "\<forall>i<length rl. rl' ! i = (if i < length sb then rl ! i @ [sb ! i] else rl ! i)"
    by blast
  have "rl' = map (\<lambda>i. rl ! i @ [sb ! i]) [0..<length rl]"
    by (rule nth_equalityI) (use l v assms in simp_all)
  with run show ?thesis by (simp add: enumerate_nth for_loop_map)
qed

lemma labels_inv_step:
  assumes smp: "sampler_ok smp" and wf: "\<forall>b\<in>set label_blocks. wf_block b"
    and j: "j < length label_blocks"
    and inv: "labels_inv smp g label_blocks label_count n j st"
  shows "\<exists>st'. scatter_labels_body smp label_count n (label_blocks ! j) st = Inr st'
           \<and> labels_inv smp g label_blocks label_count n (Suc j) st'"
proof -
  obtain rl gj where st: "st = (rl, gj)" by (cases st)
  from inv st obtain gs where lrl: "length rl = nat n"
    and lj: "\<forall>i<nat n. length (rl ! i) = j"
    and gs: "length gs = Suc j" "gs ! 0 = g" "gs ! j = gj"
    and prev: "\<forall>j'<j. \<exists>sb.
                  scatter_labels_single_block smp (gs ! j') (label_blocks ! j') label_count n
                    = Inr (sb, gs ! Suc j')
                  \<and> length sb = nat n \<and> (\<forall>i<nat n. rl ! i ! j' = sb ! i)"
    by (auto simp: labels_inv_def)
  have wfj: "wf_block (label_blocks ! j)" using wf j by simp
  from single_block_run[OF smp wfj, of gj label_count n]
  obtain av g' sb where
    run: "scatter_labels_single_block smp gj (label_blocks ! j) label_count n = Inr (sb, g')"
    and ri: "rounds_inv (wh_list_of (label_blocks ! j) label_count) (label_blocks ! j) n (nat n)
               (av, g', sb)"
    by blast
  have lsb: "length sb = nat n" using ri by (simp add: rounds_inv_def)
  let ?rl' = "map (\<lambda>i. rl ! i @ [sb ! i]) [0..<length rl]"
  have app: "for_loop append_round (enumerate 0 sb) rl = Inr ?rl'"
    using append_rounds[of sb rl] lsb lrl by simp
  have step: "scatter_labels_body smp label_count n (label_blocks ! j) st = Inr (?rl', g')"
    using st run app by (simp add: scatter_labels_body_def)
  let ?gs' = "gs @ [g']"
  have g1: "length ?gs' = Suc (Suc j)" "?gs' ! 0 = g" "?gs' ! Suc j = g'"
    using gs by (simp_all add: nth_append)
  have l': "length ?rl' = nat n" "\<forall>i<nat n. length (?rl' ! i) = Suc j"
    using lrl lj by simp_all
  have all: "\<forall>j'<Suc j. \<exists>sb'.
                  scatter_labels_single_block smp (?gs' ! j') (label_blocks ! j') label_count n
                    = Inr (sb', ?gs' ! Suc j')
                  \<and> length sb' = nat n \<and> (\<forall>i<nat n. ?rl' ! i ! j' = sb' ! i)"
  proof (intro allI impI)
    fix j' assume "j' < Suc j"
    then consider "j' < j" | "j' = j" by linarith
    then show "\<exists>sb'.
                  scatter_labels_single_block smp (?gs' ! j') (label_blocks ! j') label_count n
                    = Inr (sb', ?gs' ! Suc j')
                  \<and> length sb' = nat n \<and> (\<forall>i<nat n. ?rl' ! i ! j' = sb' ! i)"
    proof cases
      case 1
      with prev obtain sb' where
        "scatter_labels_single_block smp (gs ! j') (label_blocks ! j') label_count n
                    = Inr (sb', gs ! Suc j')"
        "length sb' = nat n" "\<forall>i<nat n. rl ! i ! j' = sb' ! i" by blast
      with 1 gs(1) lrl lj show ?thesis by (auto simp: nth_append)
    next
      case 2
      with run lsb gs lrl lj show ?thesis by (auto simp: nth_append)
    qed
  qed
  have ex: "\<exists>gs'. length gs' = Suc (Suc j) \<and> gs' ! 0 = g \<and> gs' ! Suc j = g'
            \<and> (\<forall>j'<Suc j. \<exists>sb'.
                  scatter_labels_single_block smp (gs' ! j') (label_blocks ! j') label_count n
                    = Inr (sb', gs' ! Suc j')
                  \<and> length sb' = nat n \<and> (\<forall>i<nat n. ?rl' ! i ! j' = sb' ! i))"
    using g1 all by (intro exI[of _ ?gs'] conjI)
  have "labels_inv smp g label_blocks label_count n (Suc j) (?rl', g')"
    unfolding labels_inv_def using l' ex by (simp only: prod.case simp_thms)
  with step show ?thesis by blast
qed

lemma call_scatter_labels_four:
  "call_scatter_labels smp g [PBlocks blocks, PInt label_count, PInt runs, PWeights ws]
     = Inl TypeError"
  by (simp add: call_scatter_labels_def)

lemma scattered_labels_list_of_Cons:
  "scattered_labels_list_of smp g label_count runs ws (entry # rest) = Inl TypeError"
  by (cases entry) (simp add: scattered_labels_list_of_def call_scatter_labels_four)

lemma check_weights_ok:
  assumes "weights = None \<or> (\<exists>ws. weights = Some ws \<and> runs \<le> int (length ws))"
  shows "\<exists>ws'. check_weights weights runs = Inr ws'"
  using assms by (auto simp: check_weights_def Let_def split: if_splits)

lemma single_block_no_rounds:
  "n < 1 \<Longrightarrow> scatter_labels_single_block smp g b label_count n = Inr ([], g)"
  by (simp add: scatter_labels_single_block_def scatter_rounds_def py_range_def)

lemma scatter_labels_no_rounds:
  assumes "n < 1"
  shows "scatter_labels smp g label_blocks label_count n = Inr ([], g)"
proof -
  have "for_loop (scatter_labels_body smp label_count n) label_blocks ([], g) = Inr ([], g)"
    by (induction label_blocks)
       (simp_all add: scatter_labels_body_def single_block_no_rounds[OF assms])
  then show ?thesis using assms by (simp add: scatter_labels_def py_range_def)
qed

text \<open>The training loop of the model does train when no call of the scatter is made:
  a project without label sets, two runs.\<close>

lemma autocontext_trains_without_label_sets:
  "autocontext lcg_sample 7 (example_project\<lparr>labelsets_count := 0\<rparr>) 2 (- 1) None
     = ([ExtendData, Retrain, SaveProject 0, PredictAll, MergeOutput 0 1,
         Retrain, SaveProject 1, PredictAll, MergeOutput 0 1], None)"
  by code_simp

section \<open>The claims\<close>

text \<open>
  C1. For every label block, every class \<open>c\<close> in \<open>1..label_count\<close> and every split
  count \<open>n \<ge> 1\<close>, the partitioner returns \<open>n\<close> blocks in which the sets of
  positions of class \<open>c\<close> are pairwise disjoint and have the positions of class \<open>c\<close>
  in the input block as their union: no labelled voxel is duplicated or dropped.
\<close>

theorem scatter_single_block_partition:
  assumes "sampler_ok smp" and "wf_block b" and "1 \<le> n" and "1 \<le> c" and "c \<le> label_count"
  shows "\<exists>bs g'. scatter_labels_single_block smp g b label_count n = Inr (bs, g')
           \<and> length bs = nat n
           \<and> (\<forall>r<nat n. \<forall>r'<nat n. r \<noteq> r' \<longrightarrow>
                 class_positions (bs ! r) c \<inter> class_positions (bs ! r') c = {})
           \<and> (\<Union>r<nat n. class_positions (bs ! r) c) = class_positions b c"
proof -
  let ?wh = "wh_list_of b label_count"
  let ?N = "length (voxels b)"
  from single_block_run[OF assms(1,2), of g label_count n]
  obtain av g' bs where run: "scatter_labels_single_block smp g b label_count n = Inr (bs, g')"
    and inv: "rounds_inv ?wh b n (nat n) (av, g', bs)" by blast
  have n: "int (nat n) = n" "0 < nat n" using assms(3) by simp_all
  from inv n have lbs: "length bs = nat n"
    and len: "\<forall>r<nat n. length (voxels (bs ! r)) = ?N"
    and val: "\<forall>p<?N. \<forall>r<nat n. voxels (bs ! r) ! p = 0 \<or> voxels (bs ! r) ! p = voxels b ! p"
    and asg: "\<forall>p<?N. (\<exists>r<nat n. voxels (bs ! r) ! p \<noteq> 0) \<longleftrightarrow> assigned ?wh av p"
    and one: "\<forall>p<?N. \<forall>r<nat n. \<forall>r'<nat n.
            r \<noteq> r' \<longrightarrow> voxels (bs ! r) ! p = 0 \<or> voxels (bs ! r') ! p = 0"
    and emp: "\<forall>i<nat label_count. av ! i = []"
    by (simp_all add: rounds_inv_def length_wh_list_of)
  have c0: "c \<noteq> 0" using assms(4) by simp
  have disj: "\<forall>r<nat n. \<forall>r'<nat n. r \<noteq> r' \<longrightarrow>
                 class_positions (bs ! r) c \<inter> class_positions (bs ! r') c = {}"
  proof (intro allI impI)
    fix r r' assume r: "r < nat n" "r' < nat n" "r \<noteq> r'"
    show "class_positions (bs ! r) c \<inter> class_positions (bs ! r') c = {}"
    proof (rule ccontr)
      assume "class_positions (bs ! r) c \<inter> class_positions (bs ! r') c \<noteq> {}"
      then obtain p where "p \<in> class_positions (bs ! r) c" "p \<in> class_positions (bs ! r') c"
        by blast
      then have p: "p < length (voxels (bs ! r))" "voxels (bs ! r) ! p = c"
        "voxels (bs ! r') ! p = c"
        by (simp_all add: class_positions_iff)
      then have "p < ?N" using len r by simp
      with one r have "voxels (bs ! r) ! p = 0 \<or> voxels (bs ! r') ! p = 0" by blast
      with p c0 show False by simp
    qed
  qed
  have un: "(\<Union>r<nat n. class_positions (bs ! r) c) = class_positions b c"
  proof (intro equalityI subsetI)
    fix p assume "p \<in> (\<Union>r<nat n. class_positions (bs ! r) c)"
    then obtain r where r: "r < nat n" "p < length (voxels (bs ! r))" "voxels (bs ! r) ! p = c"
      by (auto simp: class_positions_iff)
    then have p: "p < ?N" using len by simp
    with val r have "voxels (bs ! r) ! p = 0 \<or> voxels (bs ! r) ! p = voxels b ! p" by blast
    with r c0 p show "p \<in> class_positions b c" by (simp add: class_positions_iff)
  next
    fix p assume "p \<in> class_positions b c"
    then have p: "p < ?N" "voxels b ! p = c" by (simp_all add: class_positions_iff)
    with assms(4,5) have "assigned ?wh av p"
      using assigned_final[OF emp p(1)] by simp
    with asg p obtain r where r: "r < nat n" "voxels (bs ! r) ! p \<noteq> 0" by blast
    with val p have "voxels (bs ! r) ! p = c" by metis
    with r len p show "p \<in> (\<Union>r<nat n. class_positions (bs ! r) c)"
      by (auto simp: class_positions_iff)
  qed
  from run lbs disj un show ?thesis by blast
qed

text \<open>The theorem at the example block, two classes, two rounds, class 1.\<close>

theorem scatter_single_block_partition_witness:
  "\<exists>bs g'. scatter_labels_single_block lcg_sample 7 example_block 2 2 = Inr (bs, g')
           \<and> length bs = 2
           \<and> (\<forall>r<2. \<forall>r'<2. r \<noteq> r' \<longrightarrow>
                 class_positions (bs ! r) 1 \<inter> class_positions (bs ! r') 1 = {})
           \<and> (\<Union>r<2. class_positions (bs ! r) 1) = class_positions example_block 1"
  using scatter_single_block_partition[OF lcg_sample_ok wf_example_block, of 2 1 2 7]
  by simp



text \<open>
  C5, as amended. The claim says that scattering with \<open>n = 1\<close> returns the original
  block. The partitioner looks only for the values \<open>1..label_count\<close>, so a voxel with
  another value is 0 in the output, and the block differs from the input
  (\<open>scatter_single_block_one_round_counterexample\<close>). What holds: scattering with
  \<open>n = 1\<close> returns a single block of the shape and dtype of the input, in which every
  voxel with a value in \<open>1..label_count\<close> keeps its value and every other voxel is 0;
  this block is the input block when all values of the input lie in \<open>0..label_count\<close>.
\<close>

theorem scatter_single_block_one_round:
  assumes "sampler_ok smp" and "wf_block b"
  shows "\<exists>blk g'. scatter_labels_single_block smp g b label_count 1 = Inr ([blk], g')
           \<and> shape blk = shape b \<and> dtype blk = dtype b
           \<and> voxels blk = map (\<lambda>v. if 1 \<le> v \<and> v \<le> label_count then v else 0) (voxels b)
           \<and> ((\<forall>v\<in>set (voxels b). 0 \<le> v \<and> v \<le> label_count) \<longrightarrow> blk = b)"
proof -
  let ?wh = "wh_list_of b label_count"
  let ?N = "length (voxels b)"
  let ?f = "\<lambda>v. if 1 \<le> v \<and> v \<le> label_count then v else (0::int)"
  from single_block_run[OF assms(1,2), of g label_count 1]
  obtain av g' bs where run: "scatter_labels_single_block smp g b label_count 1 = Inr (bs, g')"
    and inv: "rounds_inv ?wh b 1 (nat 1) (av, g', bs)" by blast
  from inv have lbs: "length bs = 1"
    and shp: "shape (bs ! 0) = shape b" "dtype (bs ! 0) = dtype b"
      "length (voxels (bs ! 0)) = ?N"
    and val: "\<forall>p<?N. voxels (bs ! 0) ! p = 0 \<or> voxels (bs ! 0) ! p = voxels b ! p"
    and asg: "\<forall>p<?N. voxels (bs ! 0) ! p \<noteq> 0 \<longleftrightarrow> assigned ?wh av p"
    and emp: "\<forall>i<nat label_count. av ! i = []"
    by (simp_all add: rounds_inv_def length_wh_list_of)
  obtain blk where bs: "bs = [blk]" using lbs by (cases bs) auto
  have vox: "voxels blk = map ?f (voxels b)"
  proof (rule nth_equalityI)
    show "length (voxels blk) = length (map ?f (voxels b))" using shp bs by simp
  next
    fix p assume "p < length (voxels blk)"
    then have p: "p < ?N" using shp bs by simp
    have a: "assigned ?wh av p \<longleftrightarrow> 1 \<le> voxels b ! p \<and> voxels b ! p \<le> label_count"
      by (rule assigned_final[OF emp p])
    show "voxels blk ! p = map ?f (voxels b) ! p"
    proof (cases "1 \<le> voxels b ! p \<and> voxels b ! p \<le> label_count")
      case True
      with a asg p have "voxels (bs ! 0) ! p \<noteq> 0" by blast
      with val p have "voxels (bs ! 0) ! p = voxels b ! p" by blast
      with True p bs show ?thesis by simp
    next
      case False
      with a asg p have "voxels (bs ! 0) ! p = 0" by blast
      with False p bs show ?thesis by auto
    qed
  qed
  have eq: "(\<forall>v\<in>set (voxels b). 0 \<le> v \<and> v \<le> label_count) \<longrightarrow> blk = b"
  proof
    assume r: "\<forall>v\<in>set (voxels b). 0 \<le> v \<and> v \<le> label_count"
    have "map ?f (voxels b) = voxels b"
    proof (rule map_idI)
      fix v assume "v \<in> set (voxels b)"
      with r have "0 \<le> v \<and> v \<le> label_count" by blast
      then show "?f v = v" by auto
    qed
    with vox shp bs show "blk = b" by simp
  qed
  from run bs shp vox eq show ?thesis by simp
qed

text \<open>The theorem at the example block, whose values are 0, 1 and 2.\<close>

theorem scatter_single_block_one_round_witness:
  "\<exists>blk g'. scatter_labels_single_block lcg_sample 7 example_block 2 1 = Inr ([blk], g')
           \<and> shape blk = shape example_block \<and> dtype blk = dtype example_block
           \<and> voxels blk = map (\<lambda>v. if 1 \<le> v \<and> v \<le> 2 then v else 0) (voxels example_block)
           \<and> blk = example_block"
proof -
  have "\<forall>v\<in>set (voxels example_block). 0 \<le> v \<and> v \<le> 2"
    by (simp add: example_block_def)
  with scatter_single_block_one_round[OF lcg_sample_ok wf_example_block, of 7 2]
  show ?thesis by blast
qed

text \<open>The claim as stated fails at the block \<open>[[1, 3], [0, 2]]\<close> with two classes:
  the voxel of value 3 is 0 in the only output block.\<close>

theorem scatter_single_block_one_round_counterexample:
  "scatter_labels_single_block lcg_sample 7 stray_block 2 1
     = Inr ([\<lparr>shape = [2, 2], dtype = ''uint8'', voxels = [1, 0, 0, 2]\<rparr>], 1)
   \<and> \<lparr>shape = [2, 2], dtype = ''uint8'', voxels = [1, 0, 0, 2]\<rparr> \<noteq> stray_block"
  by code_simp

text \<open>
  C6. For every input block and every split count (in particular every
  \<open>n \<ge> 1\<close>), the partitioner returns \<open>n\<close> blocks (none for \<open>n \<le> 0\<close>), and each of them
  has the shape and the dtype of the input block, with as many voxels as the shape
  says.
\<close>

theorem scatter_single_block_shape_dtype:
  assumes "sampler_ok smp" and "wf_block b"
  shows "\<exists>bs g'. scatter_labels_single_block smp g b label_count n = Inr (bs, g')
           \<and> length bs = nat n
           \<and> (\<forall>blk\<in>set bs. shape blk = shape b \<and> dtype blk = dtype b \<and> wf_block blk)"
proof -
  from single_block_run[OF assms, of g label_count n]
  obtain av g' bs where run: "scatter_labels_single_block smp g b label_count n = Inr (bs, g')"
    and inv: "rounds_inv (wh_list_of b label_count) b n (nat n) (av, g', bs)" by blast
  from inv have lbs: "length bs = nat n"
    and shp: "\<forall>r<nat n. shape (bs ! r) = shape b \<and> dtype (bs ! r) = dtype b
                \<and> length (voxels (bs ! r)) = length (voxels b)"
    by (simp_all add: rounds_inv_def)
  have "\<forall>blk\<in>set bs. shape blk = shape b \<and> dtype blk = dtype b \<and> wf_block blk"
  proof
    fix blk assume "blk \<in> set bs"
    then obtain r where "r < nat n" "blk = bs ! r" using lbs by (metis in_set_conv_nth)
    with shp assms(2) show "shape blk = shape b \<and> dtype blk = dtype b \<and> wf_block blk"
      by (simp add: wf_block_def)
  qed
  with run lbs show ?thesis by blast
qed

text \<open>The theorem at the example block, three rounds.\<close>

theorem scatter_single_block_shape_dtype_witness:
  "\<exists>bs g'. scatter_labels_single_block lcg_sample 7 example_block 2 3 = Inr (bs, g')
           \<and> length bs = 3
           \<and> (\<forall>blk\<in>set bs. shape blk = [10] \<and> dtype blk = ''uint8'' \<and> wf_block blk)"
  using scatter_single_block_shape_dtype[OF lcg_sample_ok wf_example_block, of 7 2 3]
  by (simp add: example_block_def)

text \<open>
  C10. A voxel whose input value lies outside \<open>1..label_count\<close> is assigned to no
  round: it is 0 in every output block. Conservation of labels (C1) is therefore a
  statement about the values \<open>1..label_count\<close> only.
\<close>

theorem scatter_single_block_out_of_range:
  assumes "sampler_ok smp" and "wf_block b" and "p < length (voxels b)"
    and "voxels b ! p < 1 \<or> label_count < voxels b ! p"
  shows "\<exists>bs g'. scatter_labels_single_block smp g b label_count n = Inr (bs, g')
           \<and> length bs = nat n \<and> (\<forall>blk\<in>set bs. voxels blk ! p = 0)"
proof -
  let ?wh = "wh_list_of b label_count"
  from single_block_run[OF assms(1,2), of g label_count n]
  obtain av g' bs where run: "scatter_labels_single_block smp g b label_count n = Inr (bs, g')"
    and inv: "rounds_inv ?wh b n (nat n) (av, g', bs)" by blast
  from inv have lbs: "length bs = nat n"
    and asg: "\<forall>p<length (voxels b). (\<exists>r<nat n. voxels (bs ! r) ! p \<noteq> 0) \<longleftrightarrow> assigned ?wh av p"
    by (simp_all add: rounds_inv_def)
  have "\<not> assigned ?wh av p" using assigned_in_range[of b label_count av p] assms(4) by auto
  with asg assms(3) have z: "\<forall>r<nat n. voxels (bs ! r) ! p = 0" by blast
  have "\<forall>blk\<in>set bs. voxels blk ! p = 0"
  proof
    fix blk assume "blk \<in> set bs"
    then obtain r where "r < nat n" "blk = bs ! r" using lbs by (metis in_set_conv_nth)
    with z show "voxels blk ! p = 0" by simp
  qed
  with run lbs show ?thesis by blast
qed

text \<open>The theorem at the voxel of value 3 of the two by two block, two classes.\<close>

theorem scatter_single_block_out_of_range_witness:
  "\<exists>bs g'. scatter_labels_single_block lcg_sample 7 stray_block 2 2 = Inr (bs, g')
           \<and> length bs = 2 \<and> (\<forall>blk\<in>set bs. voxels blk ! 1 = 0)"
proof -
  have "(1::nat) < length (voxels stray_block)"
    and "voxels stray_block ! 1 < 1 \<or> 2 < voxels stray_block ! 1"
    by (simp_all add: stray_block_def)
  from scatter_single_block_out_of_range[OF lcg_sample_ok wf_stray_block this, of 7 2]
  show ?thesis by simp
qed

text \<open>
  C7. For every sequence of label blocks and every split count (in particular every
  \<open>n \<ge> 1\<close>), \<^verbatim>\<open>scatter_labels\<close> returns \<open>n\<close> sequences, each as long as the input
  sequence, and element \<open>j\<close> of the sequence of round \<open>i\<close> is round \<open>i\<close> of the partition of
  input block \<open>j\<close> alone. The blocks are partitioned one after the other; the only
  thing that passes from one block to the next is the state of the random generator
  (\<open>gs ! j\<close> before block \<open>j\<close>, \<open>gs ! Suc j\<close> after it).
\<close>

theorem scatter_labels_regroups:
  fixes smp :: "'g sampler" and label_blocks :: "'d label_block list"
  assumes "sampler_ok smp" and "\<forall>b\<in>set label_blocks. wf_block b"
  shows "\<exists>rl g' gs. scatter_labels smp g label_blocks label_count n = Inr (rl, g')
           \<and> length rl = nat n
           \<and> (\<forall>i<nat n. length (rl ! i) = length label_blocks)
           \<and> length gs = Suc (length label_blocks) \<and> gs ! 0 = g
           \<and> gs ! length label_blocks = g'
           \<and> (\<forall>j<length label_blocks. \<exists>sb.
                 scatter_labels_single_block smp (gs ! j) (label_blocks ! j) label_count n
                   = Inr (sb, gs ! Suc j)
                 \<and> length sb = nat n \<and> (\<forall>i<nat n. rl ! i ! j = sb ! i))"
proof -
  let ?rl0 = "map (\<lambda>_. []) (py_range n) :: 'd label_block list list"
  have "\<exists>st. for_loop (\<lambda>j. scatter_labels_body smp label_count n (label_blocks ! j))
                [0..<length label_blocks] (?rl0, g) = Inr st
           \<and> labels_inv smp g label_blocks label_count n (length label_blocks) st"
  proof (rule for_loop_upt)
    have "\<exists>gs. length gs = Suc 0 \<and> gs ! 0 = g"
      by (rule exI[of _ "[g]"]) simp
    then show "labels_inv smp g label_blocks label_count n 0 (?rl0, g)"
      unfolding labels_inv_def by (simp add: py_range_def)
  next
    show "\<And>j st. j < length label_blocks \<Longrightarrow>
            labels_inv smp g label_blocks label_count n j st \<Longrightarrow>
            \<exists>st'. scatter_labels_body smp label_count n (label_blocks ! j) st = Inr st'
                 \<and> labels_inv smp g label_blocks label_count n (Suc j) st'"
      using labels_inv_step[OF assms] by blast
  qed
  then obtain rl g' where
    run: "for_loop (scatter_labels_body smp label_count n) label_blocks (?rl0, g) = Inr (rl, g')"
    and inv: "labels_inv smp g label_blocks label_count n (length label_blocks) (rl, g')"
    by (metis for_loop_nth surj_pair)
  from run have "scatter_labels smp g label_blocks label_count n = Inr (rl, g')"
    by (simp add: scatter_labels_def)
  with inv show ?thesis unfolding labels_inv_def by auto
qed

text \<open>The theorem at the example block followed by the two by two block, two classes,
  two rounds.\<close>

theorem scatter_labels_regroups_witness:
  "\<exists>rl g' gs. scatter_labels lcg_sample 7 [example_block, stray_block] 2 2 = Inr (rl, g')
           \<and> length rl = nat 2
           \<and> (\<forall>i<nat 2. length (rl ! i) = length [example_block, stray_block])
           \<and> length gs = Suc (length [example_block, stray_block]) \<and> gs ! 0 = 7
           \<and> gs ! length [example_block, stray_block] = g'
           \<and> (\<forall>j<length [example_block, stray_block]. \<exists>sb.
                 scatter_labels_single_block lcg_sample (gs ! j)
                     ([example_block, stray_block] ! j) 2 2
                   = Inr (sb, gs ! Suc j)
                 \<and> length sb = nat 2 \<and> (\<forall>i<nat 2. rl ! i ! j = sb ! i))"
proof -
  have "\<forall>b\<in>set [example_block, stray_block]. wf_block b"
    by (simp add: wf_example_block wf_stray_block)
  from scatter_labels_regroups[OF lcg_sample_ok this, of 7 2 2]
  show ?thesis .
qed

text \<open>
  C9. Every invocation of \<^verbatim>\<open>autocontext\<close> that passes the check of the weights and
  makes a call of \<^verbatim>\<open>scatter_labels\<close> (a label data set is given, or the project has
  at least one label set) ends in the TypeError of that call, which passes four
  arguments to a function of three parameters. The only project operation before it
  is the extension of the data; no training round is performed. This holds for every
  number of runs, in particular for \<open>runs \<ge> 1\<close>.
\<close>

theorem autocontext_arity_error:
  assumes "weights = None \<or> (\<exists>ws. weights = Some ws \<and> runs \<le> int (length ws))"
    and "label_data_nr \<noteq> - 1 \<or> 1 \<le> labelsets_count project"
  shows "autocontext smp g project runs label_data_nr weights = ([ExtendData], Some TypeError)
         \<and> Retrain \<notin> set (fst (autocontext smp g project runs label_data_nr weights))"
proof -
  from check_weights_ok[OF assms(1)] obtain ws' where
    cw: "check_weights weights runs = Inr ws'" by blast
  have "blocks_with_slicing_of project label_data_nr \<noteq> []"
    using assms(2) by (auto simp: blocks_with_slicing_of_def py_range_def)
  then obtain entry rest where
    bws: "blocks_with_slicing_of project label_data_nr = entry # rest"
    by (cases "blocks_with_slicing_of project label_data_nr") auto
  have "autocontext smp g project runs label_data_nr weights = ([ExtendData], Some TypeError)"
    by (simp add: autocontext_def cw bws scattered_labels_list_of_Cons Let_def)
  then show ?thesis by simp
qed

text \<open>The theorem at the example project, three runs, all label sets, no weights.\<close>

theorem autocontext_arity_error_witness:
  "autocontext lcg_sample 7 example_project 3 (- 1) None = ([ExtendData], Some TypeError)
   \<and> Retrain \<notin> set (fst (autocontext lcg_sample 7 example_project 3 (- 1) None))"
proof -
  have "(None :: int list option) = None \<or> (\<exists>ws. None = Some ws \<and> 3 \<le> int (length ws))"
    and "(- 1 :: int) \<noteq> - 1 \<or> 1 \<le> labelsets_count example_project"
    by (simp_all add: example_project_def)
  from autocontext_arity_error[OF this] show ?thesis .
qed

text \<open>
  C4, as amended. The claim says that a split count smaller than 1 is rejected with
  an error. Neither the partitioner nor the aggregator checks the split count: for
  \<open>n < 1\<close> the loop over \<^verbatim>\<open>range(n)\<close> is empty, and both return an empty list of rounds
  and leave the generator untouched (\<open>configuration_checks_counterexample\<close>). What
  holds: a number of weights smaller than the number of runs is rejected by
  \<^verbatim>\<open>autocontext\<close> with an exception before any project operation and before any
  sampling; a split count smaller than 1 is not rejected, the scatter returns no
  rounds, without sampling and without error.
\<close>

theorem configuration_checks:
  "(int (length ws) < runs \<longrightarrow>
      autocontext smp g project runs label_data_nr (Some ws)
        = ([], Some (Exception
             ''The number of weights must not be smaller than the number of runs.'')))
   \<and> (n < 1 \<longrightarrow>
        scatter_labels_single_block smp g b label_count n = Inr ([], g)
      \<and> scatter_labels smp g label_blocks label_count n = Inr ([], g))"
  by (simp add: single_block_no_rounds scatter_labels_no_rounds autocontext_def
        check_weights_def)

text \<open>The theorem at one weight for two runs, and at split count 0.\<close>

theorem configuration_checks_witness:
  "int (length [1::int]) < 2 \<and> (0::int) < 1
   \<and> autocontext lcg_sample 7 example_project 2 (- 1) (Some [1])
        = ([], Some (Exception
             ''The number of weights must not be smaller than the number of runs.''))
   \<and> scatter_labels_single_block lcg_sample 7 example_block 2 0 = Inr ([], 7)
   \<and> scatter_labels lcg_sample 7 [example_block] 2 0 = Inr ([], 7)"
  using configuration_checks[of "[1]" 2 lcg_sample 7 example_project "- 1" 0 example_block 2
          "[example_block]"]
  by simp

text \<open>The claim as stated fails at split count 0: the partitioner returns normally.\<close>

theorem configuration_checks_counterexample:
  "scatter_labels_single_block lcg_sample 7 example_block 2 0 = Inr ([], 7)"
  by code_simp

text \<open>
  C2. The claim says that round \<open>i\<close> receives the share
  \<open>weight[i] / sum(weight[i:])\<close> of the labels not yet assigned, as the docstring of
  \<^verbatim>\<open>autocontext\<close> promises (runs = 3, weights = [3, 2, 1]: one half, one third, one
  sixth of the labels). The code does not do this. \<^verbatim>\<open>scatter_labels\<close> has no weight
  parameter and divides equally: six voxels of one class go to three rounds as
  2, 2, 2 and not as 3, 2, 1. The call in \<^verbatim>\<open>autocontext\<close>, which does pass the
  weights, raises TypeError.
\<close>

theorem weights_ignored:
  "(case scatter_labels lcg_sample 7 [six_block] 1 3 of
      Inl e \<Rightarrow> False
    | Inr (rounds, g') \<Rightarrow> class_counts rounds 1 = [[2], [2], [2]])
   \<and> autocontext lcg_sample 7 six_project 3 (- 1) (Some [3, 2, 1])
       = ([ExtendData], Some TypeError)"
  by code_simp

end
